theory Spec2Isabelle
  imports Main "HOL-Library.Sublist"
begin

section \<open>Strings as the list page uses them\<close>

text \<open>
  The page calls two string operations of the language, \<^verbatim>\<open>toLowerCase\<close> and
  \<^verbatim>\<open>includes\<close>. A string is a \<^typ>\<open>string\<close>, and a \<^typ>\<open>char\<close> is read as the
  code unit of that number: the 256 characters of Basic Latin and the Latin-1 Supplement
  (U+0000 to U+00FF). On these, \<^verbatim>\<open>toLowerCase\<close> works character by character: the
  capitals A to Z, U+00C0 to U+00D6 and U+00D8 to U+00DE move up by 32 and every other
  character stays. Text with characters beyond U+00FF has no value in this type.
\<close>

definition is_upper :: "char \<Rightarrow> bool" where
  "is_upper c =
     ((65 \<le> (of_char c :: nat) \<and> (of_char c :: nat) \<le> 90) \<or>
      (192 \<le> (of_char c :: nat) \<and> (of_char c :: nat) \<le> 214) \<or>
      (216 \<le> (of_char c :: nat) \<and> (of_char c :: nat) \<le> 222))"

definition toLowerCase_char :: "char \<Rightarrow> char" where
  "toLowerCase_char c = (if is_upper c then char_of ((of_char c :: nat) + 32) else c)"

definition toLowerCase :: "string \<Rightarrow> string" where
  "toLowerCase s = map toLowerCase_char s"

text \<open>\<^verbatim>\<open>t.startsWith(s)\<close> and \<^verbatim>\<open>t.includes(s)\<close>: the receiver comes first.\<close>

fun starts_with :: "string \<Rightarrow> string \<Rightarrow> bool" where
  "starts_with t [] = True"
| "starts_with [] (c # s) = False"
| "starts_with (d # t) (c # s) = (d = c \<and> starts_with t s)"

fun str_includes :: "string \<Rightarrow> string \<Rightarrow> bool" where
  "str_includes [] s = (s = [])"
| "str_includes (d # t) s = (starts_with (d # t) s \<or> str_includes t s)"

section \<open>The provider record and the sample data\<close>

record HealthcareProvider =
  id' :: string
  providerName :: string
  providerType :: string
  ehrGroupId :: "string option"
  contactEmail :: string
  contactPhone :: string
  address :: string
  status :: string
  notes' :: string
  ehrId :: "string option"
  ehrTenantId :: "string option"
  onboardedDate :: "string option"
  lastDataFetch :: "string option"

definition sampleProviders :: "HealthcareProvider list" where
  "sampleProviders =
    [ \<lparr> id' = ''1'',
        providerName = ''Karleigh Mcdaniel'',
        providerType = ''Clinic'',
        ehrGroupId = Some ''VOLP-2024'',
        contactEmail = ''jydutax@mailinator.com'',
        contactPhone = ''2323267770'',
        address = ''123 Main St, Suite 100, San Francisco, CA 94105'',
        status = ''Active'',
        notes' = '''',
        ehrId = None, ehrTenantId = None, onboardedDate = None, lastDataFetch = None \<rparr>,
      \<lparr> id' = ''2'',
        providerName = ''Northwest Health Partners'',
        providerType = ''Hospital'',
        ehrGroupId = Some ''NWHP-2024'',
        contactEmail = ''admin@northwesthealth.org'',
        contactPhone = ''5035559876'',
        address = ''450 Cedar Avenue, Portland, OR 97204'',
        status = ''Active'',
        notes' = ''Regional hospital network'',
        ehrId = None, ehrTenantId = None, onboardedDate = None, lastDataFetch = None \<rparr>,
      \<lparr> id' = ''3'',
        providerName = ''Eastside Medical Group'',
        providerType = ''Private Practice'',
        ehrGroupId = Some ''EMG-742'',
        contactEmail = ''contact@eastsidemed.com'',
        contactPhone = ''2065551234'',
        address = ''820 Bellevue Way, Bellevue, WA 98004'',
        status = ''Pending'',
        notes' = ''Onboarding in progress'',
        ehrId = None, ehrTenantId = None, onboardedDate = None, lastDataFetch = None \<rparr>,
      \<lparr> id' = ''4'',
        providerName = ''Valley Care Specialists'',
        providerType = ''Specialist Center'',
        ehrGroupId = Some ''VCS-2023-09'',
        contactEmail = ''info@valleycare.net'',
        contactPhone = ''4805557654'',
        address = ''1275 Desert Palm Drive, Phoenix, AZ 85021'',
        status = ''Active'',
        notes' = ''Cardiology focus'',
        ehrId = None, ehrTenantId = None, onboardedDate = None, lastDataFetch = None \<rparr> ]"

section \<open>The page state and the search filter\<close>

datatype toast_variant = Default | Destructive

record toast =
  title :: string
  description :: string
  variant :: toast_variant

text \<open>
  The four \<^verbatim>\<open>useState\<close> cells of \<^verbatim>\<open>ClientListPage\<close>, and the notifications
  handed to \<^verbatim>\<open>toast\<close> so far, oldest first.
\<close>

record page_state =
  searchQuery :: string
  providers :: "HealthcareProvider list"
  deleteDialogOpen :: bool
  selectedProviderId :: "string option"
  toasts :: "toast list"

definition initial_state :: page_state where
  "initial_state =
     \<lparr> searchQuery = '''', providers = sampleProviders, deleteDialogOpen = False,
       selectedProviderId = None, toasts = [] \<rparr>"

text \<open>
  The callback of \<^verbatim>\<open>providers.filter\<close>. The guard \<^verbatim>\<open>provider.ehrGroupId && ...\<close>
  is false for \<^verbatim>\<open>null\<close> and for the empty string.
\<close>

definition provider_matches :: "string \<Rightarrow> HealthcareProvider \<Rightarrow> bool" where
  "provider_matches query provider =
     (let searchTerm = toLowerCase query in
        str_includes (toLowerCase (providerName provider)) searchTerm \<or>
        (case ehrGroupId provider of
           None \<Rightarrow> False
         | Some g \<Rightarrow> g \<noteq> [] \<and> str_includes (toLowerCase g) searchTerm) \<or>
        str_includes (toLowerCase (contactEmail provider)) searchTerm \<or>
        str_includes (contactPhone provider) searchTerm)"

definition filteredProviders :: "HealthcareProvider list \<Rightarrow> string \<Rightarrow> HealthcareProvider list" where
  "filteredProviders ps query = filter (provider_matches query) ps"

text \<open>\<^verbatim>\<open>onChange={(e) => setSearchQuery(e.target.value)}\<close>\<close>

definition setSearchQuery :: "string \<Rightarrow> page_state \<Rightarrow> page_state" where
  "setSearchQuery q s = s\<lparr>searchQuery := q\<rparr>"

text \<open>The rows the table shows: the filter applied to the two state cells it reads.\<close>

definition visible_rows :: "page_state \<Rightarrow> HealthcareProvider list" where
  "visible_rows s = filteredProviders (providers s) (searchQuery s)"

section \<open>Mutations\<close>

text \<open>
  A mutation function runs against the page state and settles: it resolves
  (\<^term>\<open>None\<close>) or rejects with an error. \<^verbatim>\<open>useMutation\<close> then calls
  \<^verbatim>\<open>onSuccess\<close> or \<^verbatim>\<open>onError\<close> on the state the function left behind. Both
  mutation functions of the page return without awaiting anything, so a mutation has
  settled when \<^verbatim>\<open>mutate\<close> is over.
\<close>

datatype js_error = Error (message: string)

definition useMutation_settle ::
  "('st \<Rightarrow> 'st) \<Rightarrow> (js_error \<Rightarrow> 'st \<Rightarrow> 'st) \<Rightarrow> js_error option \<Rightarrow> 'st \<Rightarrow> 'st" where
  "useMutation_settle onSuccess onError outcome s =
     (case outcome of None \<Rightarrow> onSuccess s | Some e \<Rightarrow> onError e s)"

definition useMutation_mutate ::
  "('v \<Rightarrow> 'st \<Rightarrow> js_error option \<times> 'st) \<Rightarrow> ('st \<Rightarrow> 'st) \<Rightarrow> (js_error \<Rightarrow> 'st \<Rightarrow> 'st)
     \<Rightarrow> 'v \<Rightarrow> 'st \<Rightarrow> 'st" where
  "useMutation_mutate mutationFn onSuccess onError v s =
     (case mutationFn v s of (outcome, s') \<Rightarrow> useMutation_settle onSuccess onError outcome s')"

subsection \<open>Delete\<close>

text \<open>\<^verbatim>\<open>setProviders(providers.filter(p => p.id !== id))\<close>; nothing in it can reject.\<close>

definition deleteProvider_mutationFn :: "string \<Rightarrow> page_state \<Rightarrow> js_error option \<times> page_state" where
  "deleteProvider_mutationFn i s =
     (None, s\<lparr>providers := filter (\<lambda>p. id' p \<noteq> i) (providers s)\<rparr>)"

definition deleteProvider_onSuccess :: "page_state \<Rightarrow> page_state" where
  "deleteProvider_onSuccess s =
     s\<lparr>toasts := toasts s @
          [\<lparr>title = ''Success'',
            description = ''Healthcare provider has been deleted successfully.'',
            variant = Default\<rparr>],
       deleteDialogOpen := False\<rparr>"

definition deleteProvider_onError :: "js_error \<Rightarrow> page_state \<Rightarrow> page_state" where
  "deleteProvider_onError e s =
     s\<lparr>toasts := toasts s @
          [\<lparr>title = ''Error'',
            description = ''Failed to delete healthcare provider: '' @ message e,
            variant = Destructive\<rparr>]\<rparr>"

definition deleteProviderMutation_settle :: "js_error option \<Rightarrow> page_state \<Rightarrow> page_state" where
  "deleteProviderMutation_settle =
     useMutation_settle deleteProvider_onSuccess deleteProvider_onError"

definition deleteProviderMutation_mutate :: "string \<Rightarrow> page_state \<Rightarrow> page_state" where
  "deleteProviderMutation_mutate =
     useMutation_mutate deleteProvider_mutationFn deleteProvider_onSuccess deleteProvider_onError"

definition handleDelete :: "string \<Rightarrow> page_state \<Rightarrow> page_state" where
  "handleDelete i s = s\<lparr>selectedProviderId := Some i, deleteDialogOpen := True\<rparr>"

text \<open>\<^verbatim>\<open>if (selectedProviderId)\<close> is false for \<^verbatim>\<open>null\<close> and for the empty string.\<close>

definition confirmDelete :: "page_state \<Rightarrow> page_state" where
  "confirmDelete s =
     (case selectedProviderId s of
        None \<Rightarrow> s
      | Some i \<Rightarrow> if i \<noteq> [] then deleteProviderMutation_mutate i s else s)"

text \<open>The Cancel button and the dialog's \<^verbatim>\<open>onOpenChange\<close>.\<close>

definition setDeleteDialogOpen :: "bool \<Rightarrow> page_state \<Rightarrow> page_state" where
  "setDeleteDialogOpen b s = s\<lparr>deleteDialogOpen := b\<rparr>"

subsection \<open>Refresh\<close>

definition refreshProvider_mutationFn :: "unit \<Rightarrow> page_state \<Rightarrow> js_error option \<times> page_state" where
  "refreshProvider_mutationFn u s = (None, s)"

definition refreshProvider_onSuccess :: "page_state \<Rightarrow> page_state" where
  "refreshProvider_onSuccess s =
     s\<lparr>toasts := toasts s @
          [\<lparr>title = ''Success'',
            description = ''Client data has been refreshed.'',
            variant = Default\<rparr>]\<rparr>"

definition refreshProvider_onError :: "js_error \<Rightarrow> page_state \<Rightarrow> page_state" where
  "refreshProvider_onError e s =
     s\<lparr>toasts := toasts s @
          [\<lparr>title = ''Error'',
            description = ''Failed to refresh data: '' @ message e,
            variant = Destructive\<rparr>]\<rparr>"

definition refreshProviderMutation_settle :: "js_error option \<Rightarrow> page_state \<Rightarrow> page_state" where
  "refreshProviderMutation_settle =
     useMutation_settle refreshProvider_onSuccess refreshProvider_onError"

definition refreshProviderMutation_mutate :: "page_state \<Rightarrow> page_state" where
  "refreshProviderMutation_mutate =
     useMutation_mutate refreshProvider_mutationFn refreshProvider_onSuccess
       refreshProvider_onError ()"

text \<open>\<^verbatim>\<open>handleRefresh\<close> takes the row's id and calls \<^verbatim>\<open>mutate()\<close> without it.\<close>

definition handleRefresh :: "string \<Rightarrow> page_state \<Rightarrow> page_state" where
  "handleRefresh i s = refreshProviderMutation_mutate s"

section \<open>The filter as the specification words it\<close>

text \<open>
  Two characters are the same letter when they are equal or one is a capital and the other
  its lower-case form. A case-insensitive occurrence of \<open>s\<close> in \<open>t\<close> is a stretch of
  \<open>t\<close> that agrees with \<open>s\<close> letter by letter.
\<close>

definition same_letter :: "char \<Rightarrow> char \<Rightarrow> bool" where
  "same_letter a b =
     (a = b \<or>
      (is_upper a \<and> (of_char b :: nat) = of_char a + 32) \<or>
      (is_upper b \<and> (of_char a :: nat) = of_char b + 32))"

fun ci_starts_with :: "string \<Rightarrow> string \<Rightarrow> bool" where
  "ci_starts_with t [] = True"
| "ci_starts_with [] (c # s) = False"
| "ci_starts_with (d # t) (c # s) = (same_letter d c \<and> ci_starts_with t s)"

fun ci_includes :: "string \<Rightarrow> string \<Rightarrow> bool" where
  "ci_includes [] s = (s = [])"
| "ci_includes (d # t) s = (ci_starts_with (d # t) s \<or> ci_includes t s)"

text \<open>
  The predicate of the specification: the search string occurs, ignoring case, in the name,
  in the group id when there is one, or in the email, or occurs exactly in the phone number.
\<close>

definition spec_matches :: "string \<Rightarrow> HealthcareProvider \<Rightarrow> bool" where
  "spec_matches query p =
     (ci_includes (providerName p) query \<or>
      (case ehrGroupId p of None \<Rightarrow> False | Some g \<Rightarrow> ci_includes g query) \<or>
      ci_includes (contactEmail p) query \<or>
      sublist query (contactPhone p))"

text \<open>
  The same with the phone number searched for the lower-cased search string, exactly.
\<close>

definition spec_matches_lowered :: "string \<Rightarrow> HealthcareProvider \<Rightarrow> bool" where
  "spec_matches_lowered query p =
     (ci_includes (providerName p) query \<or>
      (case ehrGroupId p of None \<Rightarrow> False | Some g \<Rightarrow> ci_includes g query) \<or>
      ci_includes (contactEmail p) query \<or>
      sublist (toLowerCase query) (contactPhone p))"

text \<open>
  A character that is neither a capital nor the lower-case form of one, as the digits and
  signs of a phone number.
\<close>

definition is_lower :: "char \<Rightarrow> bool" where
  "is_lower c =
     ((97 \<le> (of_char c :: nat) \<and> (of_char c :: nat) \<le> 122) \<or>
      (224 \<le> (of_char c :: nat) \<and> (of_char c :: nat) \<le> 246) \<or>
      (248 \<le> (of_char c :: nat) \<and> (of_char c :: nat) \<le> 254))"

definition no_letter :: "char \<Rightarrow> bool" where
  "no_letter c = (\<not> is_upper c \<and> \<not> is_lower c)"


section \<open>The tables and their insert schemas\<close>

text \<open>
  \<^verbatim>\<open>shared/schema.ts\<close> declares four tables with the column builders of drizzle-orm and
  derives an insert schema for each with \<^verbatim>\<open>createInsertSchema\<close> of drizzle-zod and
  \<^verbatim>\<open>pick\<close>, \<^verbatim>\<open>omit\<close> and \<^verbatim>\<open>extend\<close> of zod. The libraries are dependencies of
  the repository; this section writes down their published behaviour as far as the schema
  file uses it. A column records what the builders set: \<^verbatim>\<open>serial\<close> is not null and has
  a default, \<^verbatim>\<open>primaryKey()\<close> implies not null, \<^verbatim>\<open>default\<close> and
  \<^verbatim>\<open>defaultNow\<close> give a default, \<^verbatim>\<open>references\<close> names the table referred to.
\<close>

datatype pg_type = PgText | PgVarchar nat | PgSerial | PgInteger | PgBoolean | PgTimestamp

record column =
  columnName :: string
  dataType :: pg_type
  notNull :: bool
  hasDefault :: bool
  isPrimaryKey :: bool
  isUnique :: bool
  foreignKey :: "string option"

definition pg_column :: "string \<Rightarrow> pg_type \<Rightarrow> column" where
  "pg_column n t = \<lparr>columnName = n, dataType = t, notNull = False, hasDefault = False,
                    isPrimaryKey = False, isUnique = False, foreignKey = None\<rparr>"

definition pg_text :: "string \<Rightarrow> column" where
  "pg_text n = pg_column n PgText"

definition pg_varchar :: "string \<Rightarrow> nat \<Rightarrow> column" where
  "pg_varchar n len = pg_column n (PgVarchar len)"

definition pg_serial :: "string \<Rightarrow> column" where
  "pg_serial n = (pg_column n PgSerial)\<lparr>notNull := True, hasDefault := True\<rparr>"

definition pg_integer :: "string \<Rightarrow> column" where
  "pg_integer n = pg_column n PgInteger"

definition pg_boolean :: "string \<Rightarrow> column" where
  "pg_boolean n = pg_column n PgBoolean"

definition pg_timestamp :: "string \<Rightarrow> column" where
  "pg_timestamp n = pg_column n PgTimestamp"

definition primaryKey :: "column \<Rightarrow> column" where
  "primaryKey c = c\<lparr>isPrimaryKey := True, notNull := True\<rparr>"

definition with_notNull :: "column \<Rightarrow> column" where
  "with_notNull c = c\<lparr>notNull := True\<rparr>"

definition with_unique :: "column \<Rightarrow> column" where
  "with_unique c = c\<lparr>isUnique := True\<rparr>"

definition with_default :: "column \<Rightarrow> column" where
  "with_default c = c\<lparr>hasDefault := True\<rparr>"

definition defaultNow :: "column \<Rightarrow> column" where
  "defaultNow c = c\<lparr>hasDefault := True\<rparr>"

definition references_to :: "string \<Rightarrow> column \<Rightarrow> column" where
  "references_to t c = c\<lparr>foreignKey := Some t\<rparr>"

text \<open>The four tables: property name and column, in source order.\<close>

definition users :: "(string \<times> column) list" where
  "users =
    [ (''id'', primaryKey (pg_serial ''id'')),
      (''username'', with_unique (with_notNull (pg_text ''username''))),
      (''password'', with_notNull (pg_text ''password'')) ]"

definition healthcareProviders :: "(string \<times> column) list" where
  "healthcareProviders =
    [ (''id'', primaryKey (pg_serial ''id'')),
      (''name'', with_notNull (pg_text ''name'')),
      (''groupId'', with_unique (with_notNull (pg_text ''group_id''))),
      (''contactName'', pg_text ''contact_name''),
      (''email'', with_notNull (pg_text ''email'')),
      (''phone'', with_notNull (pg_text ''phone'')),
      (''company'', pg_text ''company''),
      (''address'', pg_text ''address''),
      (''city'', pg_text ''city''),
      (''state'', pg_text ''state''),
      (''zipCode'', pg_text ''zip_code''),
      (''country'', with_default (pg_text ''country'')),
      (''createdAt'', defaultNow (pg_timestamp ''created_at'')) ]"

definition ehrSystems :: "(string \<times> column) list" where
  "ehrSystems =
    [ (''id'', primaryKey (pg_varchar ''id'' 36)),
      (''ehrName'', with_unique (with_notNull (pg_varchar ''ehr_name'' 255))),
      (''apiBaseEndpoint'', pg_varchar ''api_base_endpoint'' 255),
      (''description'', pg_text ''description''),
      (''isSupported'', with_default (pg_boolean ''is_supported'')),
      (''addedOn'', defaultNow (pg_timestamp ''added_on'')),
      (''lastUpdated'', defaultNow (pg_timestamp ''last_updated'')),
      (''providerId'', references_to ''healthcare_providers'' (pg_integer ''provider_id'')) ]"

definition dataFetchHistory :: "(string \<times> column) list" where
  "dataFetchHistory =
    [ (''id'', primaryKey (pg_serial ''id'')),
      (''providerId'',
         with_notNull (references_to ''healthcare_providers'' (pg_integer ''provider_id''))),
      (''fetchDate'', defaultNow (pg_timestamp ''fetch_date'')),
      (''s3Location'', with_notNull (pg_text ''s3_location'')),
      (''status'', with_default (pg_text ''status'')) ]"

text \<open>
  Values and objects. A number is an integer here, which is what the integer columns hold;
  a date is its time value. An object is a list of properties read with \<^const>\<open>map_of\<close>;
  a property that is absent is \<^verbatim>\<open>undefined\<close>.
\<close>

datatype js_value = JNull | JString string | JNumber int | JBoolean bool | JDate int

type_synonym js_object = "(string \<times> js_value) list"

text \<open>
  The field types the schemas are built from: a string, a string of bounded length, a
  string that passes a further check (\<^verbatim>\<open>z.string().uuid()\<close>, with the check itself left
  open), a 32-bit integer, a boolean, a date.
\<close>

datatype zod_type =
  ZString | ZStringMax nat | ZStringRefined "string \<Rightarrow> bool" | ZInt32 | ZBoolean | ZDate

record field_schema =
  base :: zod_type
  nullable :: bool
  optional :: bool

datatype unknown_keys = Strip | Strict | Passthrough

record object_schema =
  shape :: "(string \<times> field_schema) list"
  unknownKeys :: unknown_keys

datatype zod_issue = InvalidType string | UnrecognizedKeys "string list"

fun type_accepts :: "zod_type \<Rightarrow> js_value \<Rightarrow> bool" where
  "type_accepts ZString (JString s) = True"
| "type_accepts (ZStringMax n) (JString s) = (length s \<le> n)"
| "type_accepts (ZStringRefined check) (JString s) = check s"
| "type_accepts ZInt32 (JNumber n) = (- 2147483648 \<le> n \<and> n \<le> 2147483647)"
| "type_accepts ZBoolean (JBoolean b) = True"
| "type_accepts ZDate (JDate d) = True"
| "type_accepts t v = False"

fun field_accepts :: "field_schema \<Rightarrow> js_value option \<Rightarrow> bool" where
  "field_accepts f None = optional f"
| "field_accepts f (Some JNull) = nullable f"
| "field_accepts f (Some v) = type_accepts (base f) v"

definition shape_keys :: "object_schema \<Rightarrow> string list" where
  "shape_keys sch = map fst (shape sch)"

text \<open>
  Parsing an object: every key of the shape is checked against the property of that name;
  the properties the shape does not name are dropped (\<^const>\<open>Strip\<close>, what
  \<^verbatim>\<open>z.object\<close> does unless told otherwise), reported (\<^const>\<open>Strict\<close>, after
  \<^verbatim>\<open>.strict()\<close>) or kept (\<^const>\<open>Passthrough\<close>).
\<close>

definition field_issues :: "object_schema \<Rightarrow> js_object \<Rightarrow> zod_issue list" where
  "field_issues sch payload =
     concat (map (\<lambda>(k, f). if field_accepts f (map_of payload k) then [] else [InvalidType k])
               (shape sch))"

definition unrecognized :: "object_schema \<Rightarrow> js_object \<Rightarrow> js_object" where
  "unrecognized sch payload = filter (\<lambda>(k, v). k \<notin> set (shape_keys sch)) payload"

definition recognized :: "object_schema \<Rightarrow> js_object \<Rightarrow> js_object" where
  "recognized sch payload =
     concat (map (\<lambda>k. case map_of payload k of None \<Rightarrow> [] | Some v \<Rightarrow> [(k, v)])
               (shape_keys sch))"

definition safeParse :: "object_schema \<Rightarrow> js_object \<Rightarrow> zod_issue list + js_object" where
  "safeParse sch payload =
     (let extra = unrecognized sch payload;
          issues = field_issues sch payload @
                   (if unknownKeys sch = Strict \<and> extra \<noteq> []
                    then [UnrecognizedKeys (map fst extra)] else []);
          out = recognized sch payload @
                (if unknownKeys sch = Passthrough then extra else [])
      in if issues = [] then Inr out else Inl issues)"

text \<open>
  \<^verbatim>\<open>createInsertSchema\<close>: a text column is a string, a varchar column a string of at most
  its length, a serial or integer column a 32-bit integer, a boolean column a boolean, a
  timestamp column a date. A column that may be null gives a nullable, optional field; a
  not-null column with a default gives an optional field; any other column is required.
\<close>

fun zod_base :: "pg_type \<Rightarrow> zod_type" where
  "zod_base PgText = ZString"
| "zod_base (PgVarchar len) = ZStringMax len"
| "zod_base PgSerial = ZInt32"
| "zod_base PgInteger = ZInt32"
| "zod_base PgBoolean = ZBoolean"
| "zod_base PgTimestamp = ZDate"

definition insert_field :: "column \<Rightarrow> field_schema" where
  "insert_field c =
     (if \<not> notNull c then \<lparr>base = zod_base (dataType c), nullable = True, optional = True\<rparr>
      else if hasDefault c then \<lparr>base = zod_base (dataType c), nullable = False, optional = True\<rparr>
      else \<lparr>base = zod_base (dataType c), nullable = False, optional = False\<rparr>)"

definition createInsertSchema :: "(string \<times> column) list \<Rightarrow> object_schema" where
  "createInsertSchema table =
     \<lparr>shape = map (\<lambda>(k, c). (k, insert_field c)) table, unknownKeys = Strip\<rparr>"

text \<open>
  \<^verbatim>\<open>.pick({k: true, ...})\<close> keeps the named keys of the shape, in the order they are
  named; \<^verbatim>\<open>.omit({k: true, ...})\<close> removes the named keys; \<^verbatim>\<open>.extend({k: f, ...})\<close>
  replaces the field of a key the shape has and adds the others at the end. All three keep
  the policy for unknown keys.
\<close>

definition pick :: "string list \<Rightarrow> object_schema \<Rightarrow> object_schema" where
  "pick ks sch =
     sch\<lparr>shape := concat (map (\<lambda>k. case map_of (shape sch) k of
                                      None \<Rightarrow> [] | Some f \<Rightarrow> [(k, f)]) ks)\<rparr>"

definition omit :: "string list \<Rightarrow> object_schema \<Rightarrow> object_schema" where
  "omit ks sch = sch\<lparr>shape := filter (\<lambda>(k, f). k \<notin> set ks) (shape sch)\<rparr>"

definition extend :: "(string \<times> field_schema) list \<Rightarrow> object_schema \<Rightarrow> object_schema" where
  "extend aug sch =
     sch\<lparr>shape := map (\<lambda>(k, f). case map_of aug k of None \<Rightarrow> (k, f) | Some g \<Rightarrow> (k, g))
                     (shape sch) @
                   filter (\<lambda>(k, g). k \<notin> set (shape_keys sch)) aug\<rparr>"

text \<open>\<^verbatim>\<open>z.string().uuid()\<close> with the UUID check \<open>uuid\<close>, and \<^verbatim>\<open>.optional()\<close>.\<close>

definition z_string_uuid :: "(string \<Rightarrow> bool) \<Rightarrow> field_schema" where
  "z_string_uuid uuid = \<lparr>base = ZStringRefined uuid, nullable = False, optional = False\<rparr>"

definition z_optional :: "field_schema \<Rightarrow> field_schema" where
  "z_optional f = f\<lparr>optional := True\<rparr>"

text \<open>The four insert schemas. The UUID check of zod is a parameter of the third.\<close>

definition insertUserSchema :: object_schema where
  "insertUserSchema = pick [''username'', ''password''] (createInsertSchema users)"

definition insertHealthcareProviderSchema :: object_schema where
  "insertHealthcareProviderSchema =
     omit [''id'', ''createdAt''] (createInsertSchema healthcareProviders)"

definition insertEhrSystemSchema :: "(string \<Rightarrow> bool) \<Rightarrow> object_schema" where
  "insertEhrSystemSchema uuid =
     extend [(''id'', z_optional (z_string_uuid uuid))]
       (omit [''id'', ''addedOn'', ''lastUpdated''] (createInsertSchema ehrSystems))"

definition insertDataFetchHistorySchema :: object_schema where
  "insertDataFetchHistorySchema =
     omit [''id'', ''fetchDate''] (createInsertSchema dataFetchHistory)"

text \<open>
  A persisted row (\<^verbatim>\<open>$inferSelect\<close>): every column has a value of the type the language
  gives it (a string, a number, a boolean, a date), or \<^verbatim>\<open>null\<close> where the column
  allows it.
\<close>

fun row_type_ok :: "pg_type \<Rightarrow> js_value \<Rightarrow> bool" where
  "row_type_ok PgText (JString s) = True"
| "row_type_ok (PgVarchar len) (JString s) = True"
| "row_type_ok PgSerial (JNumber n) = True"
| "row_type_ok PgInteger (JNumber n) = True"
| "row_type_ok PgBoolean (JBoolean b) = True"
| "row_type_ok PgTimestamp (JDate d) = True"
| "row_type_ok t v = False"

fun row_value_ok :: "column \<Rightarrow> js_value option \<Rightarrow> bool" where
  "row_value_ok c None = False"
| "row_value_ok c (Some JNull) = (\<not> notNull c)"
| "row_value_ok c (Some v) = row_type_ok (dataType c) v"

definition valid_row :: "(string \<times> column) list \<Rightarrow> js_object \<Rightarrow> bool" where
  "valid_row table row = list_all (\<lambda>(k, c). row_value_ok c (map_of row k)) table"

text \<open>The insert payload built from a row: the row without the named properties.\<close>

definition without_keys :: "string list \<Rightarrow> js_object \<Rightarrow> js_object" where
  "without_keys ks obj = filter (\<lambda>(k, v). k \<notin> set ks) obj"

text \<open>
  What it is for a schema to ignore the properties it does not name: the payload is judged
  as the payload cut down to the schema's keys is, and a parsed object has no other key.
\<close>

definition ignores_extra_fields :: "object_schema \<Rightarrow> js_object \<Rightarrow> bool" where
  "ignores_extra_fields sch payload =
     (safeParse sch payload =
        safeParse sch (filter (\<lambda>(k, v). k \<in> set (shape_keys sch)) payload) \<and>
      (case safeParse sch payload of
         Inl issues \<Rightarrow> issues \<noteq> []
       | Inr out \<Rightarrow> set (map fst out) \<subseteq> set (shape_keys sch)))"

definition sample_row :: js_object where
  "sample_row =
    [ (''id'', JNumber 7),
      (''name'', JString ''Northwest Health Partners''),
      (''groupId'', JString ''NWHP-2024''),
      (''contactName'', JNull),
      (''email'', JString ''admin@northwesthealth.org''),
      (''phone'', JString ''5035559876''),
      (''company'', JNull),
      (''address'', JString ''450 Cedar Avenue''),
      (''city'', JString ''Portland''),
      (''state'', JString ''OR''),
      (''zipCode'', JString ''97204''),
      (''country'', JString ''USA''),
      (''createdAt'', JDate 1700000000000) ]"

text \<open>
  The text form of a UUID, 8-4-4-4-12 hexadecimal digits, as one check that can stand for
  the parameter, and a row of the EHR table.
\<close>

definition is_hex :: "char \<Rightarrow> bool" where
  "is_hex c =
     ((48 \<le> (of_char c :: nat) \<and> (of_char c :: nat) \<le> 57) \<or>
      (65 \<le> (of_char c :: nat) \<and> (of_char c :: nat) \<le> 70) \<or>
      (97 \<le> (of_char c :: nat) \<and> (of_char c :: nat) \<le> 102))"

definition hex_uuid :: "string \<Rightarrow> bool" where
  "hex_uuid s =
     (length s = 36 \<and>
      list_all is_hex (take 8 s) \<and> take 1 (drop 8 s) = ''-'' \<and>
      list_all is_hex (take 4 (drop 9 s)) \<and> take 1 (drop 13 s) = ''-'' \<and>
      list_all is_hex (take 4 (drop 14 s)) \<and> take 1 (drop 18 s) = ''-'' \<and>
      list_all is_hex (take 4 (drop 19 s)) \<and> take 1 (drop 23 s) = ''-'' \<and>
      list_all is_hex (drop 24 s))"

definition sample_ehr_row :: js_object where
  "sample_ehr_row =
    [ (''id'', JString ''123e4567-e89b-12d3-a456-426614174000''),
      (''ehrName'', JString ''Epic''),
      (''apiBaseEndpoint'', JNull),
      (''description'', JString ''Epic Systems''),
      (''isSupported'', JBoolean True),
      (''addedOn'', JDate 1700000000000),
      (''lastUpdated'', JDate 1700000000000),
      (''providerId'', JNumber 7) ]"

section \<open>Lower-casing and searching\<close>

lemma of_char_toLowerCase_char:
  "(of_char (toLowerCase_char c) :: nat) =
     (if is_upper c then of_char c + 32 else of_char c)"
  by (auto simp: toLowerCase_char_def is_upper_def of_char_of)

lemma toLowerCase_char_eq_iff:
  "toLowerCase_char a = toLowerCase_char b \<longleftrightarrow> same_letter a b"
proof -
  have "toLowerCase_char a = toLowerCase_char b \<longleftrightarrow>
        (of_char (toLowerCase_char a) :: nat) = of_char (toLowerCase_char b)"
    by simp
  also have "\<dots> \<longleftrightarrow> same_letter a b"
    unfolding of_char_toLowerCase_char same_letter_def
    using of_char_eq_iff [of a b, where ?'a = nat] by (auto simp: is_upper_def)
  finally show ?thesis .
qed

lemma starts_with_toLowerCase:
  "starts_with (toLowerCase t) (toLowerCase s) = ci_starts_with t s"
  by (induction t s rule: ci_starts_with.induct)
     (simp_all add: toLowerCase_def toLowerCase_char_eq_iff)

lemma str_includes_toLowerCase:
  "str_includes (toLowerCase t) (toLowerCase s) = ci_includes t s"
proof (induction t)
  case Nil
  show ?case by (simp add: toLowerCase_def)
next
  case (Cons d t)
  have "starts_with (toLowerCase (d # t)) (toLowerCase s) = ci_starts_with (d # t) s"
    by (rule starts_with_toLowerCase)
  with Cons show ?case by (simp add: toLowerCase_def)
qed

lemma starts_with_iff: "starts_with t s \<longleftrightarrow> (\<exists>post. t = s @ post)"
  by (induction t s rule: starts_with.induct) auto

lemma str_includes_iff: "str_includes t s \<longleftrightarrow> (\<exists>pre post. t = pre @ s @ post)"
proof (induction t)
  case Nil
  show ?case by auto
next
  case (Cons d t)
  show ?case
  proof
    assume "str_includes (d # t) s"
    then consider "starts_with (d # t) s" | "str_includes t s" by auto
    then show "\<exists>pre post. d # t = pre @ s @ post"
    proof cases
      case 1
      then obtain post where "d # t = s @ post" by (auto simp: starts_with_iff)
      then have "d # t = [] @ s @ post" by simp
      then show ?thesis by blast
    next
      case 2
      with Cons obtain pre post where "t = pre @ s @ post" by auto
      then have "d # t = (d # pre) @ s @ post" by simp
      then show ?thesis by blast
    qed
  next
    assume "\<exists>pre post. d # t = pre @ s @ post"
    then obtain pre post where eq: "d # t = pre @ s @ post" by blast
    show "str_includes (d # t) s"
    proof (cases pre)
      case Nil
      with eq have "starts_with (d # t) s" by (auto simp: starts_with_iff)
      then show ?thesis by simp
    next
      case (Cons a pre')
      with eq have "t = pre' @ s @ post" by simp
      with Cons.IH have "str_includes t s" by blast
      then show ?thesis by simp
    qed
  qed
qed

lemma str_includes_sublist: "str_includes t s = sublist s t"
  by (simp add: str_includes_iff sublist_def)

lemma str_includes_empty: "str_includes t []"
  by (simp add: str_includes_sublist)

lemma ci_includes_empty: "ci_includes t []"
  by (induction t) simp_all

lemma ci_includes_in_empty: "ci_includes [] q = (q = [])"
  by simp

lemma ci_starts_with_iff:
  "ci_starts_with t s \<longleftrightarrow> (\<exists>u post. t = u @ post \<and> list_all2 same_letter u s)"
proof (induction t s rule: ci_starts_with.induct)
  case (1 t)
  show ?case by simp
next
  case (2 c s)
  show ?case by (simp add: list_all2_Cons2)
next
  case (3 d t c s)
  show ?case
  proof
    assume "ci_starts_with (d # t) (c # s)"
    with 3 obtain u post where "same_letter d c" "t = u @ post" "list_all2 same_letter u s"
      by auto
    then have "d # t = (d # u) @ post \<and> list_all2 same_letter (d # u) (c # s)" by simp
    then show "\<exists>u post. d # t = u @ post \<and> list_all2 same_letter u (c # s)" by blast
  next
    assume "\<exists>u post. d # t = u @ post \<and> list_all2 same_letter u (c # s)"
    then obtain u post where eq: "d # t = u @ post" and l: "list_all2 same_letter u (c # s)"
      by blast
    from l obtain z zs where u: "u = z # zs" "same_letter z c" "list_all2 same_letter zs s"
      by (auto simp: list_all2_Cons2)
    with eq have "z = d" "t = zs @ post" by simp_all
    with u 3 show "ci_starts_with (d # t) (c # s)" by auto
  qed
qed

lemma ci_includes_iff:
  "ci_includes t s \<longleftrightarrow> (\<exists>pre u post. t = pre @ u @ post \<and> list_all2 same_letter u s)"
proof (induction t)
  case Nil
  show ?case by auto
next
  case (Cons d t)
  show ?case
  proof
    assume "ci_includes (d # t) s"
    then consider "ci_starts_with (d # t) s" | "ci_includes t s" by auto
    then show "\<exists>pre u post. d # t = pre @ u @ post \<and> list_all2 same_letter u s"
    proof cases
      case 1
      then obtain u post where "d # t = u @ post" "list_all2 same_letter u s"
        by (auto simp: ci_starts_with_iff)
      then have "d # t = [] @ u @ post \<and> list_all2 same_letter u s" by simp
      then show ?thesis by blast
    next
      case 2
      with Cons obtain pre u post where "t = pre @ u @ post" "list_all2 same_letter u s"
        by auto
      then have "d # t = (d # pre) @ u @ post \<and> list_all2 same_letter u s" by simp
      then show ?thesis by blast
    qed
  next
    assume "\<exists>pre u post. d # t = pre @ u @ post \<and> list_all2 same_letter u s"
    then obtain pre u post where eq: "d # t = pre @ u @ post"
      and l: "list_all2 same_letter u s" by blast
    show "ci_includes (d # t) s"
    proof (cases pre)
      case Nil
      with eq l have "ci_starts_with (d # t) s"
        unfolding ci_starts_with_iff by auto
      then show ?thesis by simp
    next
      case (Cons a pre')
      with eq have "t = pre' @ u @ post" by simp
      with l Cons.IH have "ci_includes t s" by blast
      then show ?thesis by simp
    qed
  qed
qed

lemma provider_matches_lowered: "provider_matches q p = spec_matches_lowered q p"
proof (cases "q = []")
  case True
  then show ?thesis
    by (simp add: provider_matches_def spec_matches_lowered_def toLowerCase_def
        str_includes_empty ci_includes_empty)
next
  case False
  have g: "(g \<noteq> [] \<and> ci_includes g q) = ci_includes g q" for g
    using False by (cases g) simp_all
  show ?thesis
    by (simp add: provider_matches_def spec_matches_lowered_def str_includes_toLowerCase
        str_includes_sublist [symmetric] g split: option.split)
qed

lemma toLowerCase_char_no_letter:
  assumes "no_letter (toLowerCase_char c) \<or> no_letter c"
  shows "toLowerCase_char c = c"
proof -
  have "(of_char (toLowerCase_char c) :: nat) = of_char c"
    using assms unfolding of_char_toLowerCase_char
    by (auto simp: no_letter_def is_lower_def is_upper_def of_char_toLowerCase_char
        split: if_splits)
  then show ?thesis by simp
qed

lemma toLowerCase_no_letters:
  assumes "list_all no_letter (toLowerCase q) \<or> list_all no_letter q"
  shows "toLowerCase q = q"
proof -
  have "toLowerCase_char c = c" if "c \<in> set q" for c
  proof (rule toLowerCase_char_no_letter)
    from assms that show "no_letter (toLowerCase_char c) \<or> no_letter c"
      by (auto simp: toLowerCase_def list_all_iff)
  qed
  then show ?thesis
    unfolding toLowerCase_def by (simp add: map_idI)
qed

lemma sublist_lowered_no_letters:
  assumes "list_all no_letter phone"
  shows "sublist (toLowerCase q) phone = sublist q phone"
proof (cases "sublist (toLowerCase q) phone \<or> sublist q phone")
  case True
  then have "set (toLowerCase q) \<subseteq> set phone \<or> set q \<subseteq> set phone"
    by (auto dest: set_mono_sublist)
  with assms have "list_all no_letter (toLowerCase q) \<or> list_all no_letter q"
    by (auto simp: list_all_iff)
  then have "toLowerCase q = q" by (rule toLowerCase_no_letters)
  then show ?thesis by simp
next
  case False
  then show ?thesis by simp
qed

lemma spec_matches_no_letters:
  "list_all no_letter (contactPhone p) \<Longrightarrow> spec_matches_lowered q p = spec_matches q p"
  by (simp add: spec_matches_def spec_matches_lowered_def sublist_lowered_no_letters)

text \<open>
  On a collection whose phone numbers have no letters, as the sample data, the filter is
  the predicate of the specification, phone number included.
\<close>

lemma filteredProviders_letter_free_phones:
  assumes "list_all (\<lambda>p. list_all no_letter (contactPhone p)) ps"
  shows "filteredProviders ps q = filter (spec_matches q) ps"
  unfolding filteredProviders_def
proof (rule filter_cong)
  fix p assume "p \<in> set ps"
  with assms have "list_all no_letter (contactPhone p)"
    by (simp add: list_all_iff)
  then show "provider_matches q p = spec_matches q p"
    by (simp add: provider_matches_lowered spec_matches_no_letters)
qed simp

text \<open>
  What the filter computes on every collection: the name, the group id and the email are
  searched ignoring case, the phone number is searched for the lower-cased search string
  as it stands. The result keeps the order, and the empty search string keeps every
  provider.
\<close>

lemma filteredProviders_lowered:
  "filteredProviders ps q = filter (spec_matches_lowered q) ps \<and>
   subseq (filteredProviders ps q) ps \<and>
   filteredProviders ps [] = ps"
proof -
  have 1: "filteredProviders ps q = filter (spec_matches_lowered q) ps"
    unfolding filteredProviders_def
    by (rule filter_cong) (simp_all add: provider_matches_lowered)
  have 2: "subseq (filteredProviders ps q) ps"
    by (simp add: filteredProviders_def)
  have "provider_matches [] p" for p
    by (simp add: provider_matches_def toLowerCase_def str_includes_empty)
  then have 3: "filteredProviders ps [] = ps"
    by (simp add: filteredProviders_def)
  from 1 2 3 show ?thesis by blast
qed

text \<open>Lower-casing beyond the ASCII letters: U+00C9 becomes U+00E9, U+00D7 stays.\<close>

lemma toLowerCase_latin1:
  "toLowerCase [CHR ''A'', char_of (201 :: nat), char_of (215 :: nat)] =
     [CHR ''a'', char_of (233 :: nat), char_of (215 :: nat)]"
  by code_simp


section \<open>Parsing against an object schema\<close>

lemma map_of_without_keys:
  "map_of (without_keys ks obj) k = (if k \<in> set ks then None else map_of obj k)"
  by (induction obj) (auto simp: without_keys_def)

lemma map_of_filter_keys:
  "map_of (filter (\<lambda>(k, v). k \<in> K) obj) k = (if k \<in> K then map_of obj k else None)"
  by (induction obj) auto

lemma field_issues_empty_iff:
  "field_issues sch payload = [] \<longleftrightarrow>
     list_all (\<lambda>(k, f). field_accepts f (map_of payload k)) (shape sch)"
  by (auto simp: field_issues_def list_all_iff split_def)

lemma field_issues_agree:
  assumes "\<And>k. k \<in> set (shape_keys sch) \<Longrightarrow> map_of p k = map_of q k"
  shows "field_issues sch p = field_issues sch q"
proof -
  have "map (\<lambda>(k, f). if field_accepts f (map_of p k) then [] else [InvalidType k]) (shape sch)
      = map (\<lambda>(k, f). if field_accepts f (map_of q k) then [] else [InvalidType k]) (shape sch)"
  proof (rule map_cong)
    fix x assume x: "x \<in> set (shape sch)"
    then have "fst x \<in> set (shape_keys sch)" by (simp add: shape_keys_def)
    then have "map_of p (fst x) = map_of q (fst x)" by (rule assms)
    then show "(case x of (k, f) \<Rightarrow> if field_accepts f (map_of p k) then [] else [InvalidType k])
             = (case x of (k, f) \<Rightarrow> if field_accepts f (map_of q k) then [] else [InvalidType k])"
      by (simp add: split_def)
  qed simp
  then show ?thesis unfolding field_issues_def by (rule arg_cong)
qed

lemma recognized_agree:
  assumes "\<And>k. k \<in> set (shape_keys sch) \<Longrightarrow> map_of p k = map_of q k"
  shows "recognized sch p = recognized sch q"
proof -
  have "map (\<lambda>k. case map_of p k of None \<Rightarrow> [] | Some v \<Rightarrow> [(k, v)]) (shape_keys sch)
      = map (\<lambda>k. case map_of q k of None \<Rightarrow> [] | Some v \<Rightarrow> [(k, v)]) (shape_keys sch)"
    by (rule map_cong) (simp_all add: assms)
  then show ?thesis unfolding recognized_def by (rule arg_cong)
qed

lemma recognized_keys: "set (map fst (recognized sch payload)) \<subseteq> set (shape_keys sch)"
  by (auto simp: recognized_def split: option.splits)

lemma safeParse_Strip:
  "unknownKeys sch = Strip \<Longrightarrow>
   safeParse sch payload =
     (if field_issues sch payload = [] then Inr (recognized sch payload)
      else Inl (field_issues sch payload))"
  by (simp add: safeParse_def Let_def)

lemma safeParse_Strip_agree:
  assumes "unknownKeys sch = Strip"
    and "\<And>k. k \<in> set (shape_keys sch) \<Longrightarrow> map_of p k = map_of q k"
  shows "safeParse sch p = safeParse sch q"
  using field_issues_agree [OF assms(2)] recognized_agree [OF assms(2)]
  by (simp add: safeParse_Strip [OF assms(1)])

text \<open>A schema that strips unknown keys ignores them, whatever its shape.\<close>

lemma Strip_ignores_extra_fields:
  assumes "unknownKeys sch = Strip"
  shows "ignores_extra_fields sch payload"
proof -
  have 1: "safeParse sch payload =
           safeParse sch (filter (\<lambda>(k, v). k \<in> set (shape_keys sch)) payload)"
    by (rule safeParse_Strip_agree [OF assms]) (simp add: map_of_filter_keys)
  have 2: "case safeParse sch payload of
             Inl issues \<Rightarrow> issues \<noteq> []
           | Inr out \<Rightarrow> set (map fst out) \<subseteq> set (shape_keys sch)"
    using recognized_keys [of sch payload] by (simp add: safeParse_Strip [OF assms])
  from 1 2 show ?thesis unfolding ignores_extra_fields_def by blast
qed

lemma Strip_drops_keys:
  assumes "unknownKeys sch = Strip" and "set ks \<inter> set (shape_keys sch) = {}"
  shows "safeParse sch (without_keys ks payload) = safeParse sch payload"
proof (rule safeParse_Strip_agree [OF assms(1)])
  fix k assume "k \<in> set (shape_keys sch)"
  with assms(2) have "k \<notin> set ks" by blast
  then show "map_of (without_keys ks payload) k = map_of payload k"
    by (simp add: map_of_without_keys)
qed

lemma unknownKeys_createInsertSchema: "unknownKeys (createInsertSchema table) = Strip"
  by (simp add: createInsertSchema_def)

lemma unknownKeys_pick: "unknownKeys (pick ks sch) = unknownKeys sch"
  by (simp add: pick_def)

lemma unknownKeys_omit: "unknownKeys (omit ks sch) = unknownKeys sch"
  by (simp add: omit_def)

lemma unknownKeys_extend: "unknownKeys (extend aug sch) = unknownKeys sch"
  by (simp add: extend_def)

lemma insertUserSchema_Strip: "unknownKeys insertUserSchema = Strip"
  by (simp add: insertUserSchema_def unknownKeys_pick unknownKeys_createInsertSchema)

lemma insertHealthcareProviderSchema_Strip:
  "unknownKeys insertHealthcareProviderSchema = Strip"
  by (simp add: insertHealthcareProviderSchema_def unknownKeys_omit
      unknownKeys_createInsertSchema)

lemma insertEhrSystemSchema_Strip: "unknownKeys (insertEhrSystemSchema uuid) = Strip"
  by (simp add: insertEhrSystemSchema_def unknownKeys_extend unknownKeys_omit
      unknownKeys_createInsertSchema)

lemma insertDataFetchHistorySchema_Strip:
  "unknownKeys insertDataFetchHistorySchema = Strip"
  by (simp add: insertDataFetchHistorySchema_def unknownKeys_omit
      unknownKeys_createInsertSchema)

lemma shape_omit_createInsertSchema:
  "shape (omit ks (createInsertSchema table)) =
     map (\<lambda>(k, c). (k, insert_field c)) (filter (\<lambda>(k, c). k \<notin> set ks) table)"
  by (induction table) (auto simp: omit_def createInsertSchema_def)

lemma insertUserSchema_keys: "shape_keys insertUserSchema = [''username'', ''password'']"
  by code_simp

lemma insertHealthcareProviderSchema_keys:
  "shape_keys insertHealthcareProviderSchema =
     [''name'', ''groupId'', ''contactName'', ''email'', ''phone'', ''company'',
      ''address'', ''city'', ''state'', ''zipCode'', ''country'']"
  by code_simp

lemma insertEhrSystemSchema_keys:
  "shape_keys (insertEhrSystemSchema uuid) =
     [''ehrName'', ''apiBaseEndpoint'', ''description'', ''isSupported'', ''providerId'',
      ''id'']"
  by code_simp

lemma insertDataFetchHistorySchema_keys:
  "shape_keys insertDataFetchHistorySchema = [''providerId'', ''s3Location'', ''status'']"
  by code_simp

lemma insertEhrSystemSchema_id:
  "map_of (shape (insertEhrSystemSchema uuid)) ''id'' = Some (z_optional (z_string_uuid uuid))"
  by (simp add: insertEhrSystemSchema_def shape_keys_def extend_def
      shape_omit_createInsertSchema ehrSystems_def)

text \<open>
  A row value of a text, boolean or timestamp column is a value its insert field accepts;
  the integer and varchar fields add bounds that the row type does not have.
\<close>

lemma row_value_ok_insert_field:
  assumes "dataType c \<in> {PgText, PgBoolean, PgTimestamp}" and "row_value_ok c v"
  shows "field_accepts (insert_field c) v"
proof (cases v)
  case None
  with assms(2) show ?thesis by simp
next
  case (Some x)
  with assms show ?thesis
    by (cases x) (auto simp: insert_field_def)
qed

lemma valid_row_no_issues:
  assumes "valid_row table row"
    and "list_all (\<lambda>(k, c). k \<in> set ks \<or> dataType c \<in> {PgText, PgBoolean, PgTimestamp})
           table"
  shows "field_issues (omit ks (createInsertSchema table)) (without_keys ks row) = []"
proof -
  have "field_accepts f (map_of (without_keys ks row) k)"
    if "(k, f) \<in> set (shape (omit ks (createInsertSchema table)))" for k f
  proof -
    from that obtain c where c: "(k, c) \<in> set table" "k \<notin> set ks" "f = insert_field c"
      by (auto simp: shape_omit_createInsertSchema)
    from assms(1) c(1) have "row_value_ok c (map_of row k)"
      by (auto simp: valid_row_def list_all_iff)
    moreover from assms(2) c(1) c(2) have "dataType c \<in> {PgText, PgBoolean, PgTimestamp}"
      by (auto simp: list_all_iff)
    ultimately have "field_accepts (insert_field c) (map_of row k)"
      by (rule row_value_ok_insert_field [rotated])
    with c show ?thesis by (simp add: map_of_without_keys)
  qed
  then show ?thesis
    by (auto simp: field_issues_empty_iff list_all_iff)
qed

lemma healthcareProviders_text_columns:
  "list_all (\<lambda>(k, c). k \<in> set [''id'', ''createdAt''] \<or>
       dataType c \<in> {PgText, PgBoolean, PgTimestamp}) healthcareProviders"
  by code_simp

text \<open>
  C7: the payload made from a valid row of the provider table by leaving out \<open>id\<close> and
  \<open>createdAt\<close> is accepted by the insert schema, and the parsed object has every
  property of the payload that the schema names.
\<close>

theorem insert_payload_of_valid_row_accepted:
  assumes "valid_row healthcareProviders row"
  shows "safeParse insertHealthcareProviderSchema (without_keys [''id'', ''createdAt''] row) =
           Inr (recognized insertHealthcareProviderSchema
                  (without_keys [''id'', ''createdAt''] row))"
  using valid_row_no_issues [OF assms healthcareProviders_text_columns]
  by (simp add: safeParse_Strip [OF insertHealthcareProviderSchema_Strip])
     (simp add: insertHealthcareProviderSchema_def)

theorem insert_payload_of_valid_row_accepted_witness:
  "valid_row healthcareProviders sample_row \<and>
   safeParse insertHealthcareProviderSchema (without_keys [''id'', ''createdAt''] sample_row) =
     Inr (without_keys [''id'', ''createdAt''] sample_row)"
proof -
  have v: "valid_row healthcareProviders sample_row" by code_simp
  have r: "recognized insertHealthcareProviderSchema
             (without_keys [''id'', ''createdAt''] sample_row) =
           without_keys [''id'', ''createdAt''] sample_row"
    by code_simp
  from insert_payload_of_valid_row_accepted [OF v] v show ?thesis
    unfolding r by blast
qed

text \<open>
  C8, as stated, fails: a payload that carries \<open>id\<close> and \<open>createdAt\<close> is accepted.
\<close>

theorem insert_rejects_extra_fields_counterexample:
  "map_of sample_row ''id'' = Some (JNumber 7) \<and>
   map_of sample_row ''createdAt'' = Some (JDate 1700000000000) \<and>
   safeParse insertHealthcareProviderSchema sample_row =
     Inr (without_keys [''id'', ''createdAt''] sample_row)"
  by code_simp

text \<open>
  C8, amended: validation against each of the four insert schemas ignores the properties
  the schema does not name. A payload is judged as the payload cut down to the schema's
  keys is, and a parsed object has no other key. The server-generated properties left out
  of a schema (\<open>id\<close> for users; \<open>id\<close> and \<open>createdAt\<close> for providers; \<open>addedOn\<close> and
  \<open>lastUpdated\<close> for EHR systems; \<open>id\<close> and \<open>fetchDate\<close> for the fetch history) are
  dropped this way, never rejected. The \<open>id\<close> of an EHR system is a key of its schema: an
  optional string that must pass the UUID check.
\<close>

theorem insert_validation_ignores_extra_fields:
  "ignores_extra_fields insertUserSchema payload \<and>
   ignores_extra_fields insertHealthcareProviderSchema payload \<and>
   ignores_extra_fields (insertEhrSystemSchema uuid) payload \<and>
   ignores_extra_fields insertDataFetchHistorySchema payload \<and>
   safeParse insertUserSchema (without_keys [''id''] payload) =
     safeParse insertUserSchema payload \<and>
   safeParse insertHealthcareProviderSchema (without_keys [''id'', ''createdAt''] payload) =
     safeParse insertHealthcareProviderSchema payload \<and>
   safeParse (insertEhrSystemSchema uuid) (without_keys [''addedOn'', ''lastUpdated''] payload) =
     safeParse (insertEhrSystemSchema uuid) payload \<and>
   safeParse insertDataFetchHistorySchema (without_keys [''id'', ''fetchDate''] payload) =
     safeParse insertDataFetchHistorySchema payload \<and>
   shape_keys insertUserSchema = [''username'', ''password''] \<and>
   shape_keys insertHealthcareProviderSchema =
     [''name'', ''groupId'', ''contactName'', ''email'', ''phone'', ''company'',
      ''address'', ''city'', ''state'', ''zipCode'', ''country''] \<and>
   shape_keys (insertEhrSystemSchema uuid) =
     [''ehrName'', ''apiBaseEndpoint'', ''description'', ''isSupported'', ''providerId'',
      ''id''] \<and>
   shape_keys insertDataFetchHistorySchema = [''providerId'', ''s3Location'', ''status''] \<and>
   map_of (shape (insertEhrSystemSchema uuid)) ''id'' = Some (z_optional (z_string_uuid uuid)) \<and>
   field_accepts (z_optional (z_string_uuid uuid)) None \<and>
   field_accepts (z_optional (z_string_uuid uuid)) (Some (JString s)) = uuid s"
proof -
  have ignore:
    "ignores_extra_fields insertUserSchema payload"
    "ignores_extra_fields insertHealthcareProviderSchema payload"
    "ignores_extra_fields (insertEhrSystemSchema uuid) payload"
    "ignores_extra_fields insertDataFetchHistorySchema payload"
    by (rule Strip_ignores_extra_fields, rule insertUserSchema_Strip)
       (rule Strip_ignores_extra_fields, rule insertHealthcareProviderSchema_Strip,
        rule Strip_ignores_extra_fields, rule insertEhrSystemSchema_Strip,
        rule Strip_ignores_extra_fields, rule insertDataFetchHistorySchema_Strip)
  have u: "safeParse insertUserSchema (without_keys [''id''] payload) =
           safeParse insertUserSchema payload"
    by (rule Strip_drops_keys [OF insertUserSchema_Strip])
       (simp add: insertUserSchema_keys)
  have h: "safeParse insertHealthcareProviderSchema
             (without_keys [''id'', ''createdAt''] payload) =
           safeParse insertHealthcareProviderSchema payload"
    by (rule Strip_drops_keys [OF insertHealthcareProviderSchema_Strip])
       (simp add: insertHealthcareProviderSchema_keys)
  have e: "safeParse (insertEhrSystemSchema uuid)
             (without_keys [''addedOn'', ''lastUpdated''] payload) =
           safeParse (insertEhrSystemSchema uuid) payload"
    by (rule Strip_drops_keys [OF insertEhrSystemSchema_Strip])
       (simp add: insertEhrSystemSchema_keys)
  have d: "safeParse insertDataFetchHistorySchema
             (without_keys [''id'', ''fetchDate''] payload) =
           safeParse insertDataFetchHistorySchema payload"
    by (rule Strip_drops_keys [OF insertDataFetchHistorySchema_Strip])
       (simp add: insertDataFetchHistorySchema_keys)
  have f: "field_accepts (z_optional (z_string_uuid uuid)) None"
    "field_accepts (z_optional (z_string_uuid uuid)) (Some (JString s)) = uuid s"
    by (simp_all add: z_optional_def z_string_uuid_def)
  from ignore u h e d f show ?thesis
    by (simp add: insertUserSchema_keys insertHealthcareProviderSchema_keys
        insertEhrSystemSchema_keys insertDataFetchHistorySchema_keys insertEhrSystemSchema_id)
qed

theorem insert_validation_ignores_extra_fields_witness:
  "safeParse insertHealthcareProviderSchema (without_keys [''id'', ''createdAt''] sample_row) =
     safeParse insertHealthcareProviderSchema sample_row \<and>
   safeParse (insertEhrSystemSchema hex_uuid)
       (without_keys [''addedOn'', ''lastUpdated''] sample_ehr_row) =
     safeParse (insertEhrSystemSchema hex_uuid) sample_ehr_row \<and>
   safeParse (insertEhrSystemSchema hex_uuid) sample_ehr_row =
     Inr (without_keys [''addedOn'', ''lastUpdated''] (tl sample_ehr_row) @ [hd sample_ehr_row]) \<and>
   safeParse (insertEhrSystemSchema hex_uuid) ((''id'', JString ''7'') # sample_ehr_row) =
     Inl [InvalidType ''id'']"
proof -
  have 1: "safeParse (insertEhrSystemSchema hex_uuid) sample_ehr_row =
     Inr (without_keys [''addedOn'', ''lastUpdated''] (tl sample_ehr_row) @ [hd sample_ehr_row])"
    by code_simp
  have 2: "safeParse (insertEhrSystemSchema hex_uuid) ((''id'', JString ''7'') # sample_ehr_row) =
     Inl [InvalidType ''id'']"
    by code_simp
  from insert_validation_ignores_extra_fields [of sample_row hex_uuid]
    insert_validation_ignores_extra_fields [of sample_ehr_row hex_uuid] 1 2
  show ?thesis by blast
qed

section \<open>The mutations, step by step\<close>

lemma deleteProviderMutation_mutate_eq:
  "deleteProviderMutation_mutate i s =
     s\<lparr>providers := filter (\<lambda>p. id' p \<noteq> i) (providers s),
       toasts := toasts s @
          [\<lparr>title = ''Success'',
            description = ''Healthcare provider has been deleted successfully.'',
            variant = Default\<rparr>],
       deleteDialogOpen := False\<rparr>"
  by (simp add: deleteProviderMutation_mutate_def useMutation_mutate_def
      useMutation_settle_def deleteProvider_mutationFn_def deleteProvider_onSuccess_def)

lemma refreshProviderMutation_mutate_eq:
  "refreshProviderMutation_mutate s =
     s\<lparr>toasts := toasts s @
          [\<lparr>title = ''Success'',
            description = ''Client data has been refreshed.'',
            variant = Default\<rparr>]\<rparr>"
  by (simp add: refreshProviderMutation_mutate_def useMutation_mutate_def
      useMutation_settle_def refreshProvider_mutationFn_def refreshProvider_onSuccess_def)

lemma filter_id_unchanged:
  "\<forall>p \<in> set ps. id' p \<noteq> i \<Longrightarrow> filter (\<lambda>p. id' p \<noteq> i) ps = ps"
  by (induction ps) auto

text \<open>
  C2: with the collection \<open>[A, B, C]\<close> (ids unique, as the data model has them), the delete
  mutation for \<open>B\<close>'s id leaves \<open>[A, C]\<close> and closes the dialog; for any id and any
  collection, what is left is every provider whose id is not equal to that id, in order.
\<close>

theorem delete_success_removes_matching_id:
  assumes "providers s = [A, B, C]" and "id' A \<noteq> id' B" and "id' C \<noteq> id' B"
  shows "providers (deleteProviderMutation_mutate (id' B) s) = [A, C] \<and>
         deleteDialogOpen (deleteProviderMutation_mutate (id' B) s) = False \<and>
         providers (deleteProviderMutation_mutate i s) = filter (\<lambda>p. id' p \<noteq> i) (providers s)"
  using assms by (simp add: deleteProviderMutation_mutate_eq)

theorem delete_success_removes_matching_id_witness:
  "providers (deleteProviderMutation_mutate ''2''
      (initial_state\<lparr>providers := take 3 sampleProviders\<rparr>))
     = [sampleProviders ! 0, sampleProviders ! 2] \<and>
   deleteDialogOpen (deleteProviderMutation_mutate ''2''
      (initial_state\<lparr>providers := take 3 sampleProviders\<rparr>)) = False"
proof -
  let ?s = "initial_state\<lparr>providers := take 3 sampleProviders\<rparr>"
  have ps: "providers ?s = [sampleProviders ! 0, sampleProviders ! 1, sampleProviders ! 2]"
    by (simp add: sampleProviders_def)
  have a: "id' (sampleProviders ! 0) \<noteq> id' (sampleProviders ! 1)"
    by (simp add: sampleProviders_def)
  have c: "id' (sampleProviders ! 2) \<noteq> id' (sampleProviders ! 1)"
    by (simp add: sampleProviders_def)
  have b: "id' (sampleProviders ! 1) = ''2''"
    by (simp add: sampleProviders_def)
  from delete_success_removes_matching_id [OF ps a c] show ?thesis
    unfolding b by blast
qed

text \<open>
  C3: the delete mutation function never rejects, and the error handler, given any error,
  adds one error notification whose description ends with the error's message and changes
  nothing else: the collection and the dialog flag are as they were.
\<close>

theorem delete_failure_reports_and_keeps_state:
  "fst (deleteProvider_mutationFn i s) = None \<and>
   deleteProviderMutation_settle (Some e) s =
     s\<lparr>toasts := toasts s @
          [\<lparr>title = ''Error'',
            description = ''Failed to delete healthcare provider: '' @ message e,
            variant = Destructive\<rparr>]\<rparr> \<and>
   providers (deleteProviderMutation_settle (Some e) s) = providers s \<and>
   deleteDialogOpen (deleteProviderMutation_settle (Some e) s) = deleteDialogOpen s"
  by (simp add: deleteProviderMutation_settle_def useMutation_settle_def
      deleteProvider_onError_def deleteProvider_mutationFn_def)

text \<open>
  C4: when no provider of the collection has the id, the delete mutation resolves (it does
  not reject) and the collection is the same list as before.
\<close>

theorem delete_unknown_id_keeps_collection:
  assumes "\<forall>p \<in> set (providers s). id' p \<noteq> i"
  shows "providers (deleteProviderMutation_mutate i s) = providers s \<and>
         fst (deleteProvider_mutationFn i s) = None"
  using filter_id_unchanged [OF assms]
  by (simp add: deleteProviderMutation_mutate_eq deleteProvider_mutationFn_def)

theorem delete_unknown_id_keeps_collection_witness:
  "providers (deleteProviderMutation_mutate ''99'' initial_state) = sampleProviders \<and>
   fst (deleteProvider_mutationFn ''99'' initial_state) = None"
proof -
  have h: "\<forall>p \<in> set (providers initial_state). id' p \<noteq> ''99''"
    by (simp add: initial_state_def sampleProviders_def)
  have ps: "providers initial_state = sampleProviders"
    by (simp add: initial_state_def)
  from delete_unknown_id_keeps_collection [OF h] show ?thesis
    unfolding ps by blast
qed

text \<open>
  C5: however the refresh mutation settles, resolved or rejected, exactly one notification
  is added and nothing else of the state changes; the collection is the same list as before,
  and so it is after \<open>handleRefresh\<close>.
\<close>

theorem refresh_keeps_collection:
  "refreshProviderMutation_settle None s =
     s\<lparr>toasts := toasts s @
          [\<lparr>title = ''Success'', description = ''Client data has been refreshed.'',
            variant = Default\<rparr>]\<rparr> \<and>
   refreshProviderMutation_settle (Some e) s =
     s\<lparr>toasts := toasts s @
          [\<lparr>title = ''Error'', description = ''Failed to refresh data: '' @ message e,
            variant = Destructive\<rparr>]\<rparr> \<and>
   providers (refreshProviderMutation_settle outcome s) = providers s \<and>
   length (toasts (refreshProviderMutation_settle outcome s)) = Suc (length (toasts s)) \<and>
   handleRefresh i s = refreshProviderMutation_settle None s \<and>
   providers (handleRefresh i s) = providers s"
proof -
  have 1: "refreshProviderMutation_settle None s = refreshProvider_onSuccess s"
    by (simp add: refreshProviderMutation_settle_def useMutation_settle_def)
  have 2: "refreshProviderMutation_settle (Some e') s = refreshProvider_onError e' s" for e'
    by (simp add: refreshProviderMutation_settle_def useMutation_settle_def)
  have 3: "providers (refreshProviderMutation_settle outcome s) = providers s \<and>
           length (toasts (refreshProviderMutation_settle outcome s)) = Suc (length (toasts s))"
    by (cases outcome)
       (simp_all add: 1 2 refreshProvider_onSuccess_def refreshProvider_onError_def)
  have 4: "handleRefresh i s = refreshProviderMutation_settle None s"
    by (simp add: 1 handleRefresh_def refreshProviderMutation_mutate_eq
        refreshProvider_onSuccess_def)
  show ?thesis
    using 3 by (simp add: 4) (simp add: 1 2 refreshProvider_onSuccess_def
        refreshProvider_onError_def)
qed

text \<open>
  C9: \<open>handleRefresh\<close> does the same for every id: from one state, two ids give the same
  state, whose last notification is the same success message.
\<close>

theorem handleRefresh_ignores_id:
  "handleRefresh i s = handleRefresh j s \<and>
   toasts (handleRefresh i s) = toasts s @
     [\<lparr>title = ''Success'', description = ''Client data has been refreshed.'',
       variant = Default\<rparr>]"
  by (simp add: handleRefresh_def refreshProviderMutation_mutate_eq)

text \<open>
  C10: when a pending target is set (a non-empty id), \<open>confirmDelete\<close> runs the delete
  mutation for it; afterwards the dialog is closed and the target is still set, and a second
  \<open>confirmDelete\<close> runs the mutation for the same id again and changes the state.
\<close>

theorem confirmDelete_keeps_target:
  assumes "selectedProviderId s = Some i" and "i \<noteq> []"
  shows "confirmDelete s = deleteProviderMutation_mutate i s \<and>
         deleteDialogOpen (confirmDelete s) = False \<and>
         selectedProviderId (confirmDelete s) = Some i \<and>
         confirmDelete (confirmDelete s) = deleteProviderMutation_mutate i (confirmDelete s) \<and>
         confirmDelete (confirmDelete s) \<noteq> confirmDelete s"
proof -
  have 1: "confirmDelete s = deleteProviderMutation_mutate i s"
    using assms by (simp add: confirmDelete_def)
  have 2: "selectedProviderId (deleteProviderMutation_mutate i s) = Some i"
    using assms by (simp add: deleteProviderMutation_mutate_eq)
  have 3: "confirmDelete (deleteProviderMutation_mutate i s) =
           deleteProviderMutation_mutate i (deleteProviderMutation_mutate i s)"
    using 2 assms by (simp add: confirmDelete_def)
  have "length (toasts (deleteProviderMutation_mutate i t)) = Suc (length (toasts t))" for t
    by (simp add: deleteProviderMutation_mutate_eq)
  then have 4: "deleteProviderMutation_mutate i t \<noteq> t" for t
    by (metis n_not_Suc_n)
  have 5: "deleteDialogOpen (deleteProviderMutation_mutate i s) = False"
    by (simp add: deleteProviderMutation_mutate_eq)
  show ?thesis
    unfolding 1 3 using 2 4 5 by simp
qed

theorem confirmDelete_keeps_target_witness:
  "selectedProviderId (confirmDelete (handleDelete ''2'' initial_state)) = Some ''2'' \<and>
   deleteDialogOpen (confirmDelete (handleDelete ''2'' initial_state)) = False \<and>
   confirmDelete (confirmDelete (handleDelete ''2'' initial_state))
     \<noteq> confirmDelete (handleDelete ''2'' initial_state)"
proof -
  have h: "selectedProviderId (handleDelete ''2'' initial_state) = Some ''2''"
    by (simp add: handleDelete_def)
  have n: "''2'' \<noteq> []" by simp
  from confirmDelete_keeps_target [OF h n] show ?thesis by blast
qed

text \<open>
  C6: the search \<open>2024\<close> over the four sample providers shows the providers with ids 1 and
  2, which are the sample providers whose group id contains \<open>2024\<close>; no sample provider
  has \<open>2024\<close> in its name, email or phone number.
\<close>

theorem sample_search_2024:
  "map id' (filteredProviders sampleProviders ''2024'') = [''1'', ''2''] \<and>
   filteredProviders sampleProviders ''2024'' =
     filter (\<lambda>p. case ehrGroupId p of None \<Rightarrow> False | Some g \<Rightarrow> str_includes g ''2024'')
       sampleProviders \<and>
   filter (\<lambda>p. str_includes (toLowerCase (providerName p)) ''2024'' \<or>
               str_includes (toLowerCase (contactEmail p)) ''2024'' \<or>
               str_includes (contactPhone p) ''2024'') sampleProviders = []"
  by code_simp

end
